theory Spec2Isabelle
  imports Complex_Main "HOL-Library.Stream"
begin

section \<open>The simulation engine of src/pages/IonAppComponent.tsx\<close>

text \<open>
  The engine consists of three functions of the component file:
  \<^verbatim>\<open>calculateBreakEvenRate\<close> (lines 76-79), \<^verbatim>\<open>simulateTrades\<close> (lines 84-121) and
  \<^verbatim>\<open>calculateWinRateOutcomes\<close> (lines 308-336).

  Number model. A JavaScript \<^verbatim>\<open>number\<close> that carries money, a percentage or a
  ratio is a \<^typ>\<open>real\<close>: arithmetic is exact, so IEEE-754 rounding, infinities and NaN
  are outside the model. A \<^verbatim>\<open>number\<close> that is used as a loop counter or a loop
  bound (\<^verbatim>\<open>i\<close>, \<^verbatim>\<open>j\<close>, \<^verbatim>\<open>wr\<close>, \<^verbatim>\<open>numTrades\<close>, the \<^verbatim>\<open>trade\<close> field) is an
  \<^typ>\<open>int\<close>; it may be negative, in which case the loops do not run, as in the source.
  The schema of line 67 admits integers only for \<^verbatim>\<open>numTrades\<close>.
\<close>

subsection \<open>Data\<close>

text \<open>\<^verbatim>\<open>interface TradeHistoryItem { trade: number; balance: number; isWin?: boolean }\<close>.
  The optional field is an option: \<open>None\<close> is the absent (undefined) value.\<close>

record TradeHistoryItem =
  trade :: int
  balance :: real
  isWin :: "bool option"

text \<open>\<^verbatim>\<open>interface WinRateOutcome { winRate: number; finalBalance: number; isBreakEven: boolean }\<close>.
  The fields carry the prefix \<open>wro_\<close>, since \<open>winRate\<close> and \<open>finalBalance\<close> are also a
  parameter and a result field of \<^verbatim>\<open>simulateTrades\<close>.\<close>

record WinRateOutcome =
  wro_winRate :: int
  wro_finalBalance :: real
  wro_isBreakEven :: bool

text \<open>The object \<^verbatim>\<open>{ finalBalance, tradeHistory }\<close> that \<^verbatim>\<open>simulateTrades\<close> returns.\<close>

record SimulationResult =
  finalBalance :: real
  tradeHistory :: "TradeHistoryItem list"

text \<open>
  \<^verbatim>\<open>Math.random\<close> is a global of the JavaScript runtime, not a parameter of any function
  of the file. Its state is modelled as the stream of the values it is going to return;
  a call returns the head and leaves the tail as the new state of the runtime.
\<close>

type_synonym random_state = "real stream"

definition Math_random :: "random_state \<Rightarrow> real \<times> random_state" where
  "Math_random rng = (shd rng, stl rng)"

text \<open>
  \<^verbatim>\<open>Math.pow(x, n)\<close> at an integer exponent. For \<open>n < 0\<close> and \<open>x = 0\<close> JavaScript returns
  Infinity, which the number model does not have; the theorems below use \<open>0 \<le> n\<close> only.
\<close>

definition Math_pow :: "real \<Rightarrow> int \<Rightarrow> real" where
  "Math_pow x n = (if 0 \<le> n then x ^ nat n else inverse x ^ nat (- n))"

subsection \<open>calculateBreakEvenRate\<close>

definition calculateBreakEvenRate :: "real \<Rightarrow> real" where
  "calculateBreakEvenRate rrRatio =
     (if rrRatio \<le> 0 then 100 else (1 / (rrRatio + 1)) * 100)"

subsection \<open>simulateTrades\<close>

text \<open>The inner loop \<^verbatim>\<open>for (let j = i + 1; j <= numTrades; j++) tradeHistory.push(...)\<close>
  of lines 113-115, started at \<open>j\<close>.\<close>

function pad_loop :: "int \<Rightarrow> int \<Rightarrow> TradeHistoryItem list \<Rightarrow> TradeHistoryItem list" where
  "pad_loop numTrades j history =
     (if j \<le> numTrades
      then pad_loop numTrades (j + 1)
             (history @ [\<lparr>trade = j, balance = 0, isWin = Some False\<rparr>])
      else history)"
  by pat_completeness auto
termination
  by (relation "measure (\<lambda>(numTrades, j, history). nat (numTrades + 1 - j))") auto

text \<open>
  The outer loop of lines 96-118, started at \<open>i\<close> with the current balance, the history
  pushed so far and the state of \<^verbatim>\<open>Math.random\<close>. It returns the three things the loop
  leaves behind: \<^verbatim>\<open>currentBalance\<close>, \<^verbatim>\<open>tradeHistory\<close> and the state of the generator.
  The \<^verbatim>\<open>break\<close> is the branch that does not recurse. The local \<^verbatim>\<open>isWin\<close> is written
  \<open>won\<close> and the array \<^verbatim>\<open>tradeHistory\<close> is written \<open>history\<close>, since both names are fields
  of the records above; a primed name is the value of the variable after the assignment.
\<close>

function simulateTrades_loop ::
  "real \<Rightarrow> real \<Rightarrow> int \<Rightarrow> real \<Rightarrow> int \<Rightarrow> real \<Rightarrow> TradeHistoryItem list \<Rightarrow> random_state
     \<Rightarrow> real \<times> TradeHistoryItem list \<times> random_state" where
  "simulateTrades_loop riskDecimal rrRatio numTrades winRateDecimal i currentBalance history rng =
     (if i \<le> numTrades
      then
        (let r = fst (Math_random rng);
             rng' = snd (Math_random rng);
             won = (r < winRateDecimal);
             currentBalance' =
               (if won then currentBalance * (1 + riskDecimal * rrRatio)
                else currentBalance * (1 - riskDecimal));
             history' = history @ [\<lparr>trade = i, balance = currentBalance', isWin = Some won\<rparr>]
         in if currentBalance' \<le> 0.01
            then (0, pad_loop numTrades (i + 1) history', rng')
            else simulateTrades_loop riskDecimal rrRatio numTrades winRateDecimal
                   (i + 1) currentBalance' history' rng')
      else (currentBalance, history, rng))"
  by pat_completeness auto
termination
  by (relation "measure (\<lambda>(riskDecimal, rrRatio, numTrades, winRateDecimal, i, currentBalance,
                  history, rng). nat (numTrades + 1 - i))") auto

text \<open>\<^verbatim>\<open>simulateTrades\<close>: the returned object, and the state in which the call leaves
  \<^verbatim>\<open>Math.random\<close>.\<close>

definition simulateTrades ::
  "real \<Rightarrow> real \<Rightarrow> real \<Rightarrow> int \<Rightarrow> real \<Rightarrow> random_state \<Rightarrow> SimulationResult \<times> random_state" where
  "simulateTrades startBalance riskPerTrade rrRatio numTrades winRate rng =
     (let riskDecimal = riskPerTrade / 100;
          winRateDecimal = winRate / 100;
          out = simulateTrades_loop riskDecimal rrRatio numTrades winRateDecimal 1 startBalance
                  [\<lparr>trade = 0, balance = startBalance, isWin = None\<rparr>] rng
      in (\<lparr>finalBalance = fst out, tradeHistory = fst (snd out)\<rparr>, snd (snd out)))"

subsection \<open>calculateWinRateOutcomes\<close>

text \<open>The body of the loop of lines 315-334 at one \<open>wr\<close>: the row it pushes.\<close>

definition outcome_row :: "real \<Rightarrow> real \<Rightarrow> real \<Rightarrow> int \<Rightarrow> int \<Rightarrow> WinRateOutcome" where
  "outcome_row currentStartBalance currentRisk currentRR currentNumTrades wr =
     (let winRateDecimal = real_of_int wr / 100;
          riskDecimal = currentRisk / 100;
          winMultiplier = 1 + riskDecimal * currentRR;
          lossMultiplier = 1 - riskDecimal;
          averageMultiplier = winRateDecimal * winMultiplier + (1 - winRateDecimal) * lossMultiplier;
          finalBal = currentStartBalance * Math_pow averageMultiplier currentNumTrades
      in \<lparr>wro_winRate = wr, wro_finalBalance = finalBal,
          wro_isBreakEven = (real_of_int wr \<ge> calculateBreakEvenRate currentRR)\<rparr>)"

text \<open>The loop \<^verbatim>\<open>for (let wr = 10; wr <= 90; wr += 10)\<close>, started at \<open>wr\<close>.\<close>

function outcomes_loop ::
  "real \<Rightarrow> real \<Rightarrow> real \<Rightarrow> int \<Rightarrow> int \<Rightarrow> WinRateOutcome list \<Rightarrow> WinRateOutcome list" where
  "outcomes_loop currentStartBalance currentRisk currentRR currentNumTrades wr outcomes =
     (if wr \<le> 90
      then outcomes_loop currentStartBalance currentRisk currentRR currentNumTrades (wr + 10)
             (outcomes @ [outcome_row currentStartBalance currentRisk currentRR currentNumTrades wr])
      else outcomes)"
  by pat_completeness auto
termination
  by (relation "measure (\<lambda>(currentStartBalance, currentRisk, currentRR, currentNumTrades, wr,
                  outcomes). nat (100 - wr))") auto

definition calculateWinRateOutcomes :: "real \<Rightarrow> real \<Rightarrow> real \<Rightarrow> int \<Rightarrow> WinRateOutcome list" where
  "calculateWinRateOutcomes currentStartBalance currentRisk currentRR currentNumTrades =
     outcomes_loop currentStartBalance currentRisk currentRR currentNumTrades 10 []"

subsection \<open>Calls and errors\<close>

text \<open>
  A call as its caller sees it: it either throws or returns. Neither \<^verbatim>\<open>simulateTrades\<close> nor
  \<^verbatim>\<open>calculateWinRateOutcomes\<close> contains a \<^verbatim>\<open>throw\<close>, a test of its arguments, or an
  operation that throws on numbers (arithmetic, comparison, \<^verbatim>\<open>Math.random\<close>, \<^verbatim>\<open>Math.pow\<close> and
  \<^verbatim>\<open>push\<close> do not), so every call takes the returning branch. The range checks of the file
  are the Yup schema of lines 63-69, which the form evaluates before the effect of lines
  339-351 calls the two functions.
\<close>

datatype error = PreconditionViolation



subsection \<open>Notions used in the statements and proofs\<close>

text \<open>The record that the inner loop pushes for trade \<open>j\<close>.\<close>

definition pad_item :: "int \<Rightarrow> TradeHistoryItem" where
  "pad_item j = \<lparr>trade = j, balance = 0, isWin = Some False\<rparr>"

text \<open>The two branches of lines 99-103: the balance after a trade with draw \<open>r\<close>, from the
  balance \<open>b\<close> before it.\<close>

definition next_balance :: "real \<Rightarrow> real \<Rightarrow> real \<Rightarrow> real \<Rightarrow> real \<Rightarrow> real" where
  "next_balance rd rr wd b r = (if r < wd then b * (1 + rd * rr) else b * (1 - rd))"

text \<open>The record that the outer loop pushes for trade \<open>i\<close> (lines 105-109).\<close>

definition trade_item :: "real \<Rightarrow> real \<Rightarrow> real \<Rightarrow> int \<Rightarrow> real \<Rightarrow> real \<Rightarrow> TradeHistoryItem" where
  "trade_item rd rr wd i b r =
     \<lparr>trade = i, balance = next_balance rd rr wd b r, isWin = Some (r < wd)\<rparr>"

text \<open>Position \<open>k\<close> is the first record of \<open>h\<close> whose balance passes the test of line 111.\<close>

definition first_low :: "TradeHistoryItem list \<Rightarrow> nat \<Rightarrow> bool" where
  "first_low h k \<longleftrightarrow> k < length h \<and> balance (h ! k) \<le> 0.01 \<and> (\<forall>j < k. \<not> balance (h ! j) \<le> 0.01)"

section \<open>The loops, unfolded\<close>

declare pad_loop.simps [simp del] simulateTrades_loop.simps [simp del] outcomes_loop.simps [simp del]

lemma pad_loop_eq: "pad_loop n j h = h @ map pad_item [j..n]"
proof (induction n j h rule: pad_loop.induct)
  case (1 n j h)
  show ?case
  proof (cases "j \<le> n")
    case True
    then show ?thesis
      using 1 by (subst pad_loop.simps) (simp add: upto_rec1 [of j n] pad_item_def)
  next
    case False
    then show ?thesis by (subst pad_loop.simps) simp
  qed
qed

lemma loop_stop:
  "\<not> i \<le> n \<Longrightarrow> simulateTrades_loop rd rr n wd i b h rs = (b, h, rs)"
  by (simp add: simulateTrades_loop.simps)

lemma loop_ruin:
  "i \<le> n \<Longrightarrow> next_balance rd rr wd b (shd rs) \<le> 0.01 \<Longrightarrow>
   simulateTrades_loop rd rr n wd i b h rs =
     (0, h @ trade_item rd rr wd i b (shd rs) # map pad_item [i + 1..n], stl rs)"
  by (simp add: simulateTrades_loop.simps [of rd rr n wd i b] Let_def Math_random_def
      next_balance_def trade_item_def pad_loop_eq)

lemma loop_go:
  "i \<le> n \<Longrightarrow> \<not> next_balance rd rr wd b (shd rs) \<le> 0.01 \<Longrightarrow>
   simulateTrades_loop rd rr n wd i b h rs =
     simulateTrades_loop rd rr n wd (i + 1) (next_balance rd rr wd b (shd rs))
       (h @ [trade_item rd rr wd i b (shd rs)]) (stl rs)"
  by (simp add: simulateTrades_loop.simps [of rd rr n wd i b] Let_def Math_random_def
      next_balance_def trade_item_def)

lemma loop_acc:
  "simulateTrades_loop rd rr n wd i b h rs =
     (fst (simulateTrades_loop rd rr n wd i b [] rs),
      h @ fst (snd (simulateTrades_loop rd rr n wd i b [] rs)),
      snd (snd (simulateTrades_loop rd rr n wd i b [] rs)))"
proof (induction "nat (n + 1 - i)" arbitrary: i b h rs)
  case 0
  then have "\<not> i \<le> n" by simp
  then show ?case by (simp add: loop_stop)
next
  case (Suc k)
  then have le: "i \<le> n" by simp
  show ?case
  proof (cases "next_balance rd rr wd b (shd rs) \<le> 0.01")
    case True
    with le show ?thesis by (simp add: loop_ruin)
  next
    case False
    from Suc have k: "k = nat (n + 1 - (i + 1))" by simp
    note ih = Suc.hyps(1) [OF k]
    show ?thesis
      by (simp add: loop_go [OF le False])
        (subst ih, subst (2 3 4) ih, simp)
  qed
qed

lemma run_stop: "\<not> i \<le> n \<Longrightarrow> simulateTrades_loop rd rr n wd i b [] rs = (b, [], rs)"
  by (rule loop_stop)

lemma run_ruin:
  "i \<le> n \<Longrightarrow> next_balance rd rr wd b (shd rs) \<le> 0.01 \<Longrightarrow>
   simulateTrades_loop rd rr n wd i b [] rs =
     (0, trade_item rd rr wd i b (shd rs) # map pad_item [i + 1..n], stl rs)"
  by (simp add: loop_ruin)

lemma run_go:
  assumes "i \<le> n" "\<not> next_balance rd rr wd b (shd rs) \<le> 0.01"
  shows "simulateTrades_loop rd rr n wd i b [] rs =
     (fst (simulateTrades_loop rd rr n wd (i + 1) (next_balance rd rr wd b (shd rs)) [] (stl rs)),
      trade_item rd rr wd i b (shd rs) #
        fst (snd (simulateTrades_loop rd rr n wd (i + 1) (next_balance rd rr wd b (shd rs)) [] (stl rs))),
      snd (snd (simulateTrades_loop rd rr n wd (i + 1) (next_balance rd rr wd b (shd rs)) [] (stl rs))))"
  by (subst loop_go [OF assms], subst loop_acc) simp

lemma run_induct [consumes 0, case_names stop ruin go]:
  assumes stop: "\<And>i b rs. \<not> i \<le> n \<Longrightarrow> P i b rs (b, [], rs)"
    and ruin: "\<And>i b rs. i \<le> n \<Longrightarrow> next_balance rd rr wd b (shd rs) \<le> 0.01 \<Longrightarrow>
        P i b rs (0, trade_item rd rr wd i b (shd rs) # map pad_item [i + 1..n], stl rs)"
    and go: "\<And>i b rs fb h rs'. i \<le> n \<Longrightarrow> \<not> next_balance rd rr wd b (shd rs) \<le> 0.01 \<Longrightarrow>
        simulateTrades_loop rd rr n wd (i + 1) (next_balance rd rr wd b (shd rs)) [] (stl rs)
          = (fb, h, rs') \<Longrightarrow>
        P (i + 1) (next_balance rd rr wd b (shd rs)) (stl rs) (fb, h, rs') \<Longrightarrow>
        P i b rs (fb, trade_item rd rr wd i b (shd rs) # h, rs')"
  shows "P i b rs (simulateTrades_loop rd rr n wd i b [] rs)"
proof (induction "nat (n + 1 - i)" arbitrary: i b rs)
  case 0
  then have "\<not> i \<le> n" by simp
  then show ?case by (simp add: run_stop stop)
next
  case (Suc k)
  then have le: "i \<le> n" by simp
  show ?case
  proof (cases "next_balance rd rr wd b (shd rs) \<le> 0.01")
    case True
    with le show ?thesis by (simp add: run_ruin ruin)
  next
    case False
    from Suc have k: "k = nat (n + 1 - (i + 1))" by simp
    obtain fb h rs' where out:
      "simulateTrades_loop rd rr n wd (i + 1) (next_balance rd rr wd b (shd rs)) [] (stl rs)
         = (fb, h, rs')"
      by (cases "simulateTrades_loop rd rr n wd (i + 1) (next_balance rd rr wd b (shd rs)) [] (stl rs)")
    have "P (i + 1) (next_balance rd rr wd b (shd rs)) (stl rs) (fb, h, rs')"
      using Suc.hyps(1) [OF k, of "next_balance rd rr wd b (shd rs)" "stl rs"] out by simp
    from go [OF le False out this] show ?thesis
      by (simp add: run_go [OF le False] out)
  qed
qed

lemma trade_pad_item: "trade \<circ> pad_item = id"
  by (simp add: fun_eq_iff pad_item_def)

lemma run_trades:
  "i \<le> n + 1 \<longrightarrow> map trade (fst (snd (simulateTrades_loop rd rr n wd i b [] rs))) = [i..n]"
proof (rule run_induct [where P = "\<lambda>i b rs out. i \<le> n + 1 \<longrightarrow> map trade (fst (snd out)) = [i..n]"],
    goal_cases)
  case (1 i b rs)
  then show ?case by simp
next
  case (2 i b rs)
  then show ?case
    by (simp add: trade_pad_item trade_item_def upto_rec1 [of i n])
next
  case (3 i b rs fb h rs')
  then show ?case
    by (simp add: trade_item_def upto_rec1 [of i n])
qed

lemma next_balance_nonneg:
  "0 \<le> b \<Longrightarrow> 0 \<le> rd \<Longrightarrow> rd \<le> 1 \<Longrightarrow> 0 \<le> rr \<Longrightarrow> 0 \<le> next_balance rd rr wd b r"
  by (simp add: next_balance_def)

lemma run_nonneg:
  assumes "0 \<le> rd" "rd \<le> 1" "0 \<le> rr"
  shows "0 \<le> b \<longrightarrow> (\<forall>x \<in> set (fst (snd (simulateTrades_loop rd rr n wd i b [] rs))). 0 \<le> balance x)"
proof (rule run_induct [where P = "\<lambda>i b rs out. 0 \<le> b \<longrightarrow> (\<forall>x \<in> set (fst (snd out)). 0 \<le> balance x)"],
    goal_cases)
  case (1 i b rs)
  show ?case by simp
next
  case (2 i b rs)
  show ?case
    using assms by (auto simp: trade_item_def pad_item_def next_balance_nonneg)
next
  case (3 i b rs fb h rs')
  then show ?case
    using assms by (auto simp: trade_item_def next_balance_nonneg)
qed

lemma first_low_Cons:
  "first_low (x # h) k \<longleftrightarrow>
     (if balance x \<le> 0.01 then k = 0 else (\<exists>k'. k = Suc k' \<and> first_low h k'))"
proof (cases k)
  case 0
  then show ?thesis by (auto simp: first_low_def)
next
  case (Suc k')
  show ?thesis
    unfolding Suc first_low_def
    by (auto simp: less_Suc_eq_0_disj)
qed

lemma run_ruin_at:
  "\<forall>k. first_low (fst (snd (simulateTrades_loop rd rr n wd i b [] rs))) k \<longrightarrow>
     fst (simulateTrades_loop rd rr n wd i b [] rs) = 0
     \<and> snd (snd (simulateTrades_loop rd rr n wd i b [] rs)) = sdrop (Suc k) rs
     \<and> drop (Suc k) (fst (snd (simulateTrades_loop rd rr n wd i b [] rs)))
         = map pad_item [i + int k + 1..n]"
proof (rule run_induct [where P = "\<lambda>i b rs out. \<forall>k. first_low (fst (snd out)) k \<longrightarrow>
     fst out = 0 \<and> snd (snd out) = sdrop (Suc k) rs
     \<and> drop (Suc k) (fst (snd out)) = map pad_item [i + int k + 1..n]"], goal_cases)
  case (1 i b rs)
  show ?case by (simp add: first_low_def)
next
  case (2 i b rs)
  then show ?case
    by (simp add: first_low_Cons trade_item_def)
next
  case (3 i b rs fb h rs')
  then show ?case
    by (auto simp: first_low_Cons trade_item_def add.commute add.left_commute)
qed

lemma run_step_at:
  "\<forall>k. k < length (fst (snd (simulateTrades_loop rd rr n wd i b [] rs)))
        \<and> (\<forall>j < k. \<not> balance (fst (snd (simulateTrades_loop rd rr n wd i b [] rs)) ! j) \<le> 0.01) \<longrightarrow>
     fst (snd (simulateTrades_loop rd rr n wd i b [] rs)) ! k =
       trade_item rd rr wd (i + int k)
         (if k = 0 then b else balance (fst (snd (simulateTrades_loop rd rr n wd i b [] rs)) ! (k - 1)))
         (rs !! k)"
proof (rule run_induct [where P = "\<lambda>i b rs out. \<forall>k. k < length (fst (snd out))
        \<and> (\<forall>j < k. \<not> balance (fst (snd out) ! j) \<le> 0.01) \<longrightarrow>
     fst (snd out) ! k =
       trade_item rd rr wd (i + int k) (if k = 0 then b else balance (fst (snd out) ! (k - 1))) (rs !! k)"],
    goal_cases)
  case (1 i b rs)
  show ?case by simp
next
  case (2 i b rs)
  show ?case
  proof (intro allI impI)
    fix k
    assume a: "k < length (fst (snd (0 :: real, trade_item rd rr wd i b (shd rs) # map pad_item [i + 1..n], stl rs)))
      \<and> (\<forall>j<k. \<not> balance (fst (snd (0 :: real, trade_item rd rr wd i b (shd rs) # map pad_item [i + 1..n], stl rs)) ! j) \<le> 0.01)"
    from a have low: "\<forall>j<k. \<not> balance ((trade_item rd rr wd i b (shd rs) # map pad_item [i + 1..n]) ! j) \<le> 0.01"
      by simp
    have "k = 0"
    proof (rule ccontr)
      assume "k \<noteq> 0"
      then have "0 < k" by simp
      with low [rule_format, of 0]
      have "\<not> balance ((trade_item rd rr wd i b (shd rs) # map pad_item [i + 1..n]) ! 0) \<le> 0.01"
        by blast
      with 2(2) show False by (simp add: trade_item_def)
    qed
    then show "fst (snd (0 :: real, trade_item rd rr wd i b (shd rs) # map pad_item [i + 1..n], stl rs)) ! k =
      trade_item rd rr wd (i + int k)
        (if k = 0 then b
         else balance (fst (snd (0 :: real, trade_item rd rr wd i b (shd rs) # map pad_item [i + 1..n], stl rs)) ! (k - 1)))
        (rs !! k)"
      by simp
  qed
next
  case (3 i b rs fb h rs')
  show ?case
  proof (intro allI impI)
    fix k
    assume a: "k < length (fst (snd (fb, trade_item rd rr wd i b (shd rs) # h, rs'))) \<and>
      (\<forall>j<k. \<not> balance (fst (snd (fb, trade_item rd rr wd i b (shd rs) # h, rs')) ! j) \<le> 0.01)"
    show "fst (snd (fb, trade_item rd rr wd i b (shd rs) # h, rs')) ! k =
      trade_item rd rr wd (i + int k)
        (if k = 0 then b else balance (fst (snd (fb, trade_item rd rr wd i b (shd rs) # h, rs')) ! (k - 1)))
        (rs !! k)"
    proof (cases k)
      case 0
      then show ?thesis by simp
    next
      case (Suc k')
      from a have len: "k' < length h" by (simp add: Suc)
      from a have lowk: "\<forall>j<k. \<not> balance ((trade_item rd rr wd i b (shd rs) # h) ! j) \<le> 0.01"
        by simp
      have low: "\<forall>j < k'. \<not> balance (h ! j) \<le> 0.01"
      proof (intro allI impI)
        fix j assume "j < k'"
        then have "Suc j < k" by (simp add: Suc)
        with lowk [rule_format, of "Suc j"]
        have "\<not> balance ((trade_item rd rr wd i b (shd rs) # h) ! Suc j) \<le> 0.01"
          by blast
        then show "\<not> balance (h ! j) \<le> 0.01" by simp
      qed
      have "k' < length h \<and> (\<forall>j<k'. \<not> balance (h ! j) \<le> 0.01)" using len low by (rule conjI)
      with 3(4) [rule_format, of k'] have ih: "h ! k' =
        trade_item rd rr wd (i + 1 + int k')
          (if k' = 0 then next_balance rd rr wd b (shd rs) else balance (h ! (k' - 1))) (stl rs !! k')"
        by simp
      have prev: "(if k' = 0 then next_balance rd rr wd b (shd rs) else balance (h ! (k' - 1)))
        = balance ((trade_item rd rr wd i b (shd rs) # h) ! k')"
        by (cases k') (simp_all add: trade_item_def)
      have idx: "i + 1 + int k' = i + int (Suc k')" by simp
      show ?thesis
        unfolding Suc using ih by (cases k') (simp_all add: trade_item_def)
    qed
  qed
qed

lemma run_deterministic:
  "\<forall>rs2. stake (nat (n + 1 - i)) rs = stake (nat (n + 1 - i)) rs2 \<longrightarrow>
     fst (simulateTrades_loop rd rr n wd i b [] rs) = fst (simulateTrades_loop rd rr n wd i b [] rs2)
     \<and> fst (snd (simulateTrades_loop rd rr n wd i b [] rs))
         = fst (snd (simulateTrades_loop rd rr n wd i b [] rs2))"
proof (rule run_induct [where P = "\<lambda>i b rs out. \<forall>rs2.
     stake (nat (n + 1 - i)) rs = stake (nat (n + 1 - i)) rs2 \<longrightarrow>
     fst out = fst (simulateTrades_loop rd rr n wd i b [] rs2)
     \<and> fst (snd out) = fst (snd (simulateTrades_loop rd rr n wd i b [] rs2))"], goal_cases)
  case (1 i b rs)
  then show ?case by (simp add: run_stop)
next
  case (2 i b rs)
  show ?case
  proof (intro allI impI)
    fix rs2 assume eq: "stake (nat (n + 1 - i)) rs = stake (nat (n + 1 - i)) rs2"
    from 2 obtain m where m: "nat (n + 1 - i) = Suc m" by (cases "nat (n + 1 - i)") auto
    from eq have "shd rs = shd rs2" unfolding m by simp
    with 2 show "fst (0 :: real, trade_item rd rr wd i b (shd rs) # map pad_item [i + 1..n], stl rs)
        = fst (simulateTrades_loop rd rr n wd i b [] rs2)
      \<and> fst (snd (0 :: real, trade_item rd rr wd i b (shd rs) # map pad_item [i + 1..n], stl rs))
        = fst (snd (simulateTrades_loop rd rr n wd i b [] rs2))"
      by (simp add: run_ruin)
  qed
next
  case (3 i b rs fb h rs')
  show ?case
  proof (intro allI impI)
    fix rs2 assume eq: "stake (nat (n + 1 - i)) rs = stake (nat (n + 1 - i)) rs2"
    from 3 obtain m where m: "nat (n + 1 - i) = Suc m" by (cases "nat (n + 1 - i)") auto
    then have m': "nat (n + 1 - (i + 1)) = m" by simp
    from eq have hd: "shd rs = shd rs2" and tl: "stake m (stl rs) = stake m (stl rs2)"
      unfolding m by simp_all
    from 3(4) tl m' have
      "fb = fst (simulateTrades_loop rd rr n wd (i + 1) (next_balance rd rr wd b (shd rs)) [] (stl rs2))
       \<and> h = fst (snd (simulateTrades_loop rd rr n wd (i + 1) (next_balance rd rr wd b (shd rs)) [] (stl rs2)))"
      by simp
    moreover have "\<not> next_balance rd rr wd b (shd rs2) \<le> 0.01" using 3(2) hd by simp
    ultimately show "fst (fb, trade_item rd rr wd i b (shd rs) # h, rs')
        = fst (simulateTrades_loop rd rr n wd i b [] rs2)
      \<and> fst (snd (fb, trade_item rd rr wd i b (shd rs) # h, rs'))
        = fst (snd (simulateTrades_loop rd rr n wd i b [] rs2))"
      using run_go [OF 3(1), of rd rr wd b rs2] hd by simp
  qed
qed

lemma simulateTrades_run:
  "simulateTrades sb rp rr n wr rng =
     (\<lparr>finalBalance = fst (simulateTrades_loop (rp / 100) rr n (wr / 100) 1 sb [] rng),
       tradeHistory = \<lparr>trade = 0, balance = sb, isWin = None\<rparr> #
          fst (snd (simulateTrades_loop (rp / 100) rr n (wr / 100) 1 sb [] rng))\<rparr>,
      snd (snd (simulateTrades_loop (rp / 100) rr n (wr / 100) 1 sb [] rng)))"
  unfolding simulateTrades_def Let_def
  by (subst loop_acc, subst (2) loop_acc, subst (3) loop_acc) simp

section \<open>The returned history\<close>


lemma history_Cons:
  "tradeHistory (fst (simulateTrades sb rp rr n wr rng)) =
     \<lparr>trade = 0, balance = sb, isWin = None\<rparr> #
       fst (snd (simulateTrades_loop (rp / 100) rr n (wr / 100) 1 sb [] rng))"
  by (simp add: simulateTrades_run)

lemma final_run:
  "finalBalance (fst (simulateTrades sb rp rr n wr rng)) =
     fst (simulateTrades_loop (rp / 100) rr n (wr / 100) 1 sb [] rng)"
  by (simp add: simulateTrades_run)

lemma rng_run:
  "snd (simulateTrades sb rp rr n wr rng) =
     snd (snd (simulateTrades_loop (rp / 100) rr n (wr / 100) 1 sb [] rng))"
  by (simp add: simulateTrades_run)

lemma trade_item_sel:
  "trade (trade_item rd rr wd i b r) = i"
  "balance (trade_item rd rr wd i b r) = next_balance rd rr wd b r"
  "isWin (trade_item rd rr wd i b r) = Some (r < wd)"
  by (simp_all add: trade_item_def)


lemma history_step:
  assumes run: "simulateTrades sb rp rr n wr rng = (res, rng')"
    and k: "1 \<le> k" "k < length (tradeHistory res)"
    and first: "\<forall>j. 1 \<le> j \<and> j < k \<longrightarrow> 0.01 < balance (tradeHistory res ! j)"
  shows "tradeHistory res ! k =
    trade_item (rp / 100) rr (wr / 100) (int k) (balance (tradeHistory res ! (k - 1))) (rng !! (k - 1))"
proof -
  define h where "h = fst (snd (simulateTrades_loop (rp / 100) rr n (wr / 100) 1 sb [] rng))"
  have H: "tradeHistory res = \<lparr>trade = 0, balance = sb, isWin = None\<rparr> # h"
    using history_Cons [of sb rp rr n wr rng] run by (simp add: h_def)
  from k obtain k0 where k0: "k = Suc k0" by (cases k) auto
  have len: "k0 < length h" using k H k0 by simp
  have low: "\<forall>j < k0. \<not> balance (h ! j) \<le> 0.01"
  proof (intro allI impI)
    fix j assume "j < k0"
    then have "1 \<le> Suc j \<and> Suc j < k" by (simp add: k0)
    with first have "0.01 < balance (tradeHistory res ! Suc j)" by blast
    then show "\<not> balance (h ! j) \<le> 0.01" by (simp add: H)
  qed
  from len low have "k0 < length h \<and> (\<forall>j < k0. \<not> balance (h ! j) \<le> 0.01)" by (rule conjI)
  with run_step_at [of "rp / 100" rr n "wr / 100" 1 sb rng, rule_format, of k0]
  have st: "h ! k0 = trade_item (rp / 100) rr (wr / 100) (1 + int k0)
      (if k0 = 0 then sb else balance (h ! (k0 - 1))) (rng !! k0)"
    unfolding h_def by blast
  have prev: "(if k0 = 0 then sb else balance (h ! (k0 - 1))) = balance (tradeHistory res ! k0)"
    by (cases k0) (simp_all add: H)
  show ?thesis
    unfolding k0 using st prev by (simp add: H add.commute)
qed

lemma history_ruin:
  assumes run: "simulateTrades sb rp rr n wr rng = (res, rng')"
    and k: "1 \<le> k" "k < length (tradeHistory res)"
    and low: "balance (tradeHistory res ! k) \<le> 0.01"
    and first: "\<forall>j. 1 \<le> j \<and> j < k \<longrightarrow> 0.01 < balance (tradeHistory res ! j)"
  shows "finalBalance res = 0 \<and> rng' = sdrop k rng
    \<and> drop (Suc k) (tradeHistory res) = map pad_item [int k + 1..n]"
proof -
  define h where "h = fst (snd (simulateTrades_loop (rp / 100) rr n (wr / 100) 1 sb [] rng))"
  have H: "tradeHistory res = \<lparr>trade = 0, balance = sb, isWin = None\<rparr> # h"
    using history_Cons [of sb rp rr n wr rng] run by (simp add: h_def)
  have F: "finalBalance res = fst (simulateTrades_loop (rp / 100) rr n (wr / 100) 1 sb [] rng)"
    using final_run [of sb rp rr n wr rng] run by simp
  have R: "rng' = snd (snd (simulateTrades_loop (rp / 100) rr n (wr / 100) 1 sb [] rng))"
    using rng_run [of sb rp rr n wr rng] run by simp
  from k obtain k0 where k0: "k = Suc k0" by (cases k) auto
  have len: "k0 < length h" using k H k0 by simp
  have lowk: "balance (h ! k0) \<le> 0.01" using low by (simp add: H k0)
  have before: "\<forall>j < k0. \<not> balance (h ! j) \<le> 0.01"
  proof (intro allI impI)
    fix j assume "j < k0"
    then have "1 \<le> Suc j \<and> Suc j < k" by (simp add: k0)
    with first have "0.01 < balance (tradeHistory res ! Suc j)" by blast
    then show "\<not> balance (h ! j) \<le> 0.01" by (simp add: H)
  qed
  have "first_low h k0" unfolding first_low_def using len lowk before by blast
  with run_ruin_at [of "rp / 100" rr n "wr / 100" 1 sb rng, rule_format, of k0]
  have "fst (simulateTrades_loop (rp / 100) rr n (wr / 100) 1 sb [] rng) = 0
     \<and> snd (snd (simulateTrades_loop (rp / 100) rr n (wr / 100) 1 sb [] rng)) = sdrop (Suc k0) rng
     \<and> drop (Suc k0) h = map pad_item [1 + int k0 + 1..n]"
    unfolding h_def by blast
  then show ?thesis
    unfolding F R k0 by (simp add: H add.commute)
qed


lemma nth_pad:
  assumes d: "drop (Suc k) H = map pad_item [int k + 1..n]" and j: "k < j" "j < length H"
  shows "H ! j = pad_item (int j)"
proof -
  from j obtain d' where d': "j = Suc k + d'" by (metis less_iff_Suc_add add_Suc)
  have len: "d' < length (drop (Suc k) H)" using j d' by simp
  then have len': "d' < length [int k + 1..n]" using d by simp
  have "H ! j = drop (Suc k) H ! d'" using j d' by simp
  also have "\<dots> = pad_item ([int k + 1..n] ! d')" using d len' by simp
  also have "[int k + 1..n] ! d' = int k + 1 + int d'"
    using len' by (intro nth_upto) simp
  finally show ?thesis by (simp add: d' ac_simps)
qed


section \<open>The outcome table\<close>

lemma outcomes_table:
  "calculateWinRateOutcomes sb rp rr n =
     map (outcome_row sb rp rr n) [10, 20, 30, 40, 50, 60, 70, 80, 90]"
  unfolding calculateWinRateOutcomes_def
  by (simp add: outcomes_loop.simps)

lemma outcome_row_sel:
  "wro_winRate (outcome_row sb rp rr n w) = w"
  "wro_isBreakEven (outcome_row sb rp rr n w) = (calculateBreakEvenRate rr \<le> real_of_int w)"
  "wro_finalBalance (outcome_row sb rp rr n w) =
     sb * Math_pow (real_of_int w / 100 * (1 + rp / 100 * rr)
                    + (1 - real_of_int w / 100) * (1 - rp / 100)) n"
  by (simp_all add: outcome_row_def Let_def)

lemma outcomes_winRate:
  "map wro_winRate (calculateWinRateOutcomes sb rp rr n) = [10, 20, 30, 40, 50, 60, 70, 80, 90]"
  by (simp add: outcomes_table outcome_row_sel)


lemma outcomes_flag:
  "row \<in> set (calculateWinRateOutcomes sb rp rr n) \<Longrightarrow>
     wro_isBreakEven row = (calculateBreakEvenRate rr \<le> real_of_int (wro_winRate row))"
  by (auto simp: outcomes_table outcome_row_sel)

lemma outcomes_mono:
  assumes "i \<le> j" "j < length (calculateWinRateOutcomes sb rp rr n)"
    and "wro_isBreakEven (calculateWinRateOutcomes sb rp rr n ! i)"
  shows "wro_isBreakEven (calculateWinRateOutcomes sb rp rr n ! j)"
proof -
  let ?T = "calculateWinRateOutcomes sb rp rr n"
  have srt: "sorted (map wro_winRate ?T)" by (simp add: outcomes_winRate)
  have lj: "j < length (map wro_winRate ?T)" using assms(2) by simp
  have "map wro_winRate ?T ! i \<le> map wro_winRate ?T ! j"
    using srt assms(1) lj by (rule sorted_nth_mono)
  then have le: "wro_winRate (?T ! i) \<le> wro_winRate (?T ! j)" using assms(1,2) by simp
  have "?T ! i \<in> set ?T" "?T ! j \<in> set ?T" using assms(1,2) by simp_all
  then have fi: "wro_isBreakEven (?T ! i) = (calculateBreakEvenRate rr \<le> real_of_int (wro_winRate (?T ! i)))"
    and fj: "wro_isBreakEven (?T ! j) = (calculateBreakEvenRate rr \<le> real_of_int (wro_winRate (?T ! j)))"
    by (simp_all add: outcomes_flag)
  from assms(3) fi le show ?thesis unfolding fj by simp
qed

lemma monotone_flags_threshold:
  assumes "\<forall>i j. i \<le> j \<and> j < length bs \<and> bs ! i \<longrightarrow> bs ! j"
  shows "\<exists>m \<le> length bs. bs = replicate m False @ replicate (length bs - m) True"
  using assms
proof (induction bs)
  case Nil
  then show ?case by simp
next
  case (Cons b bs)
  show ?case
  proof (cases b)
    case True
    have "bs ! j" if "j < length bs" for j
    proof -
      have "0 \<le> Suc j \<and> Suc j < length (b # bs) \<and> (b # bs) ! 0" using that True by simp
      with Cons.prems have "(b # bs) ! Suc j" by blast
      then show ?thesis by simp
    qed
    then have "bs = replicate (length bs) True"
      by (simp add: list_eq_iff_nth_eq)
    then have "b # bs = replicate 0 False @ replicate (length (b # bs) - 0) True"
      using True by simp
    then show ?thesis by blast
  next
    case False
    have "\<forall>i j. i \<le> j \<and> j < length bs \<and> bs ! i \<longrightarrow> bs ! j"
    proof (intro allI impI)
      fix i j assume "i \<le> j \<and> j < length bs \<and> bs ! i"
      then have "Suc i \<le> Suc j \<and> Suc j < length (b # bs) \<and> (b # bs) ! Suc i" by simp
      with Cons.prems have "(b # bs) ! Suc j" by blast
      then show "bs ! j" by simp
    qed
    with Cons.IH obtain m where m: "m \<le> length bs"
      "bs = replicate m False @ replicate (length bs - m) True" by blast
    from m(2) False have "b # bs = replicate (Suc m) False @ replicate (length (b # bs) - Suc m) True"
      by simp
    moreover have "Suc m \<le> length (b # bs)" using m(1) by simp
    ultimately show ?thesis by blast
  qed
qed

section \<open>Two concrete runs\<close>

text \<open>
  Both runs use values that the form accepts (balance 10, risk 45 percent, ratio 0.5, win rate
  50 percent, 14 and 12 trades) and a generator that always returns 0.6, so that every trade
  is a loss: the balance is \<open>10 * 0.55 ^ k\<close> after \<open>k\<close> trades and first passes the test of
  line 111 at trade 12.
\<close>

lemmas run_eval = simulateTrades_def simulateTrades_loop.simps pad_loop.simps Math_random_def Let_def

lemma run_losses_14:
  "simulateTrades 10 45 (1 / 2) 14 50 (sconst (3 / 5)) =
    (\<lparr>finalBalance = 0, tradeHistory =
       [\<lparr>trade = 0, balance = 10, isWin = None\<rparr>,
        \<lparr>trade = 1, balance = 11 / 2, isWin = Some False\<rparr>,
        \<lparr>trade = 2, balance = 121 / 40, isWin = Some False\<rparr>,
        \<lparr>trade = 3, balance = 1331 / 800, isWin = Some False\<rparr>,
        \<lparr>trade = 4, balance = 14641 / 16000, isWin = Some False\<rparr>,
        \<lparr>trade = 5, balance = 161051 / 320000, isWin = Some False\<rparr>,
        \<lparr>trade = 6, balance = 1771561 / 6400000, isWin = Some False\<rparr>,
        \<lparr>trade = 7, balance = 19487171 / 128000000, isWin = Some False\<rparr>,
        \<lparr>trade = 8, balance = 214358881 / 2560000000, isWin = Some False\<rparr>,
        \<lparr>trade = 9, balance = 2357947691 / 51200000000, isWin = Some False\<rparr>,
        \<lparr>trade = 10, balance = 25937424601 / 1024000000000, isWin = Some False\<rparr>,
        \<lparr>trade = 11, balance = 285311670611 / 20480000000000, isWin = Some False\<rparr>,
        \<lparr>trade = 12, balance = 3138428376721 / 409600000000000, isWin = Some False\<rparr>,
        \<lparr>trade = 13, balance = 0, isWin = Some False\<rparr>,
        \<lparr>trade = 14, balance = 0, isWin = Some False\<rparr>]\<rparr>,
     sconst (3 / 5))"
  by (simp add: run_eval)


lemma below_12:
  assumes "1 \<le> j \<and> j < (12 :: nat)"
  shows "j = 1 \<or> j = 2 \<or> j = 3 \<or> j = 4 \<or> j = 5 \<or> j = 6 \<or> j = 7 \<or> j = 8 \<or> j = 9 \<or> j = 10 \<or> j = 11"
  using assms by arith

section \<open>The break-even rate\<close>


section \<open>The trajectory\<close>

text \<open>
  Claim C8. For every number of trades \<open>numTrades \<ge> 0\<close>, every other parameter and every
  state of the generator, the history that \<^verbatim>\<open>simulateTrades\<close> returns has exactly
  \<open>numTrades + 1\<close> records, their \<open>trade\<close> fields are 0, 1, ..., \<open>numTrades\<close> in this order, and
  the first record carries the starting balance and no outcome. Nothing is assumed about the
  balances, so the statement covers the runs that end in ruin.
\<close>

theorem simulateTrades_records:
  assumes "0 \<le> numTrades"
  shows "length (tradeHistory (fst (simulateTrades startBalance riskPerTrade rrRatio numTrades winRate rng)))
           = nat numTrades + 1
    \<and> map trade (tradeHistory (fst (simulateTrades startBalance riskPerTrade rrRatio numTrades winRate rng)))
           = [0..numTrades]
    \<and> hd (tradeHistory (fst (simulateTrades startBalance riskPerTrade rrRatio numTrades winRate rng)))
           = \<lparr>trade = 0, balance = startBalance, isWin = None\<rparr>"
proof -
  let ?H = "tradeHistory (fst (simulateTrades startBalance riskPerTrade rrRatio numTrades winRate rng))"
  have "map trade (fst (snd (simulateTrades_loop (riskPerTrade / 100) rrRatio numTrades
          (winRate / 100) 1 startBalance [] rng))) = [1..numTrades]"
    using run_trades [of 1 numTrades] assms by simp
  then have m: "map trade ?H = [0..numTrades]"
    using assms by (simp add: history_Cons upto_rec1 [of 0 numTrades])
  have "length ?H = length (map trade ?H)" by simp
  also have "\<dots> = nat numTrades + 1" using assms by (simp add: m)
  finally have "length ?H = nat numTrades + 1" .
  moreover have "hd ?H = \<lparr>trade = 0, balance = startBalance, isWin = None\<rparr>"
    by (simp add: history_Cons)
  ultimately show ?thesis using m by simp
qed

text \<open>
  The statement at the run of 14 losing trades, which is ruined at trade 12.
\<close>

theorem simulateTrades_records_witness:
  "(0 :: int) \<le> 14
   \<and> length (tradeHistory (fst (simulateTrades 10 45 (1 / 2) 14 50 (sconst (3 / 5))))) = 15
   \<and> map trade (tradeHistory (fst (simulateTrades 10 45 (1 / 2) 14 50 (sconst (3 / 5)))))
       = [0, 1, 2, 3, 4, 5, 6, 7, 8, 9, 10, 11, 12, 13, 14]
   \<and> hd (tradeHistory (fst (simulateTrades 10 45 (1 / 2) 14 50 (sconst (3 / 5)))))
       = \<lparr>trade = 0, balance = 10, isWin = None\<rparr>"
proof -
  have h: "(0 :: int) \<le> 14" by simp
  from simulateTrades_records [OF h, of 10 45 "1 / 2" 50 "sconst (3 / 5)"]
  show ?thesis by (simp add: run_losses_14)
qed

text \<open>
  Claim C9. For a positive starting balance, a risk in (0, 100] and a ratio \<open>\<ge> 0\<close>, every
  record of the returned history carries a balance \<open>\<ge> 0\<close>, whatever the win rate, the number
  of trades and the draws.
\<close>

theorem simulateTrades_balance_nonneg:
  assumes "0 < startBalance" "0 < riskPerTrade" "riskPerTrade \<le> 100" "0 \<le> rrRatio"
  shows "\<forall>x \<in> set (tradeHistory (fst (simulateTrades startBalance riskPerTrade rrRatio numTrades winRate rng))).
           0 \<le> balance x"
proof -
  have "0 \<le> riskPerTrade / 100" "riskPerTrade / 100 \<le> 1" using assms by simp_all
  from run_nonneg [OF this \<open>0 \<le> rrRatio\<close>, of startBalance numTrades "winRate / 100" 1 rng] assms
  show ?thesis by (simp add: history_Cons)
qed

text \<open>
  The statement at the run of 14 losing trades, read at the record of the ruin and at a
  padded record.
\<close>

theorem simulateTrades_balance_nonneg_witness:
  "(0 :: real) < 10 \<and> (0 :: real) < 45 \<and> (45 :: real) \<le> 100 \<and> (0 :: real) \<le> 1 / 2
   \<and> 0 \<le> balance (tradeHistory (fst (simulateTrades 10 45 (1 / 2) 14 50 (sconst (3 / 5)))) ! 12)
   \<and> 0 \<le> balance (tradeHistory (fst (simulateTrades 10 45 (1 / 2) 14 50 (sconst (3 / 5)))) ! 13)"
proof -
  have h: "(0 :: real) < 10" "(0 :: real) < 45" "(45 :: real) \<le> 100" "(0 :: real) \<le> 1 / 2"
    by simp_all
  from simulateTrades_balance_nonneg [OF h, of 14 50 "sconst (3 / 5)"]
  show ?thesis by (simp add: run_losses_14)
qed

text \<open>
  Claim C1, as the code has it. Let trade \<open>k\<close> be the first trade whose resulting balance is
  \<open>\<le> 0.01\<close>. The record of trade \<open>k\<close> carries that resulting balance itself (the balance
  before the trade times the multiplier of the outcome): line 105 pushes the record before
  line 111 tests the balance, and line 112 resets the variable only. Every later record is
  \<open>{trade: j, balance: 0, isWin: false}\<close>, and the call leaves the generator after exactly \<open>k\<close>
  draws.
\<close>

theorem simulateTrades_ruin_absorbing:
  assumes "simulateTrades startBalance riskPerTrade rrRatio numTrades winRate rng = (res, rng')"
    and "1 \<le> k" and "k < length (tradeHistory res)"
    and "balance (tradeHistory res ! k) \<le> 0.01"
    and "\<forall>j. 1 \<le> j \<and> j < k \<longrightarrow> 0.01 < balance (tradeHistory res ! j)"
  shows "balance (tradeHistory res ! k) =
           balance (tradeHistory res ! (k - 1)) *
             (if rng !! (k - 1) < winRate / 100 then 1 + riskPerTrade / 100 * rrRatio
              else 1 - riskPerTrade / 100)
    \<and> (\<forall>j. k < j \<and> j < length (tradeHistory res) \<longrightarrow>
          tradeHistory res ! j = \<lparr>trade = int j, balance = 0, isWin = Some False\<rparr>)
    \<and> rng' = sdrop k rng"
proof -
  have "tradeHistory res ! k =
    trade_item (riskPerTrade / 100) rrRatio (winRate / 100) (int k)
      (balance (tradeHistory res ! (k - 1))) (rng !! (k - 1))"
    using assms(1,2,3,5) by (rule history_step)
  then have a: "balance (tradeHistory res ! k) =
           balance (tradeHistory res ! (k - 1)) *
             (if rng !! (k - 1) < winRate / 100 then 1 + riskPerTrade / 100 * rrRatio
              else 1 - riskPerTrade / 100)"
    by (simp add: trade_item_sel next_balance_def)
  have r: "finalBalance res = 0 \<and> rng' = sdrop k rng
    \<and> drop (Suc k) (tradeHistory res) = map pad_item [int k + 1..numTrades]"
    using assms by (rule history_ruin)
  have b: "\<forall>j. k < j \<and> j < length (tradeHistory res) \<longrightarrow>
          tradeHistory res ! j = \<lparr>trade = int j, balance = 0, isWin = Some False\<rparr>"
    using r nth_pad [of k "tradeHistory res" numTrades] by (simp add: pad_item_def)
  from a b r show ?thesis by blast
qed

text \<open>
  Claim C1 as stated asks for balance exactly 0 in the record of the ruining trade. In the
  run of 14 losing trades the record of trade 12 carries \<open>10 * 0.55 ^ 12\<close>, which is below
  0.01 and is not 0.
\<close>

theorem simulateTrades_ruin_record_counterexample:
  "tradeHistory (fst (simulateTrades 10 45 (1 / 2) 14 50 (sconst (3 / 5)))) ! 12
     = \<lparr>trade = 12, balance = 3138428376721 / 409600000000000, isWin = Some False\<rparr>
   \<and> balance (tradeHistory (fst (simulateTrades 10 45 (1 / 2) 14 50 (sconst (3 / 5)))) ! 12) \<le> 0.01
   \<and> balance (tradeHistory (fst (simulateTrades 10 45 (1 / 2) 14 50 (sconst (3 / 5)))) ! 12) \<noteq> 0"
  by (simp add: run_losses_14)

text \<open>
  The statement about the first ruining trade at the same run, with \<open>k = 12\<close>.
\<close>

theorem simulateTrades_ruin_absorbing_witness:
  "balance (tradeHistory (fst (simulateTrades 10 45 (1 / 2) 14 50 (sconst (3 / 5)))) ! 12) \<le> 0.01
   \<and> balance (tradeHistory (fst (simulateTrades 10 45 (1 / 2) 14 50 (sconst (3 / 5)))) ! 12)
       = balance (tradeHistory (fst (simulateTrades 10 45 (1 / 2) 14 50 (sconst (3 / 5)))) ! 11) * (1 - 45 / 100)
   \<and> tradeHistory (fst (simulateTrades 10 45 (1 / 2) 14 50 (sconst (3 / 5)))) ! 13
       = \<lparr>trade = 13, balance = 0, isWin = Some False\<rparr>
   \<and> tradeHistory (fst (simulateTrades 10 45 (1 / 2) 14 50 (sconst (3 / 5)))) ! 14
       = \<lparr>trade = 14, balance = 0, isWin = Some False\<rparr>
   \<and> snd (simulateTrades 10 45 (1 / 2) 14 50 (sconst (3 / 5))) = sdrop 12 (sconst (3 / 5))"
proof -
  let ?res = "fst (simulateTrades 10 45 (1 / 2) 14 50 (sconst (3 / 5)))"
  have run: "simulateTrades 10 45 (1 / 2) 14 50 (sconst (3 / 5)) = (?res, sconst (3 / 5))"
    by (simp add: run_losses_14)
  have k: "(1 :: nat) \<le> 12" "12 < length (tradeHistory ?res)"
    by (simp_all add: run_losses_14)
  have low: "balance (tradeHistory ?res ! 12) \<le> 0.01"
    by (simp add: run_losses_14)
  have first: "\<forall>j. 1 \<le> j \<and> j < 12 \<longrightarrow> 0.01 < balance (tradeHistory ?res ! j)"
  proof (intro allI impI)
    fix j :: nat assume "1 \<le> j \<and> j < 12"
    then have "j = 1 \<or> j = 2 \<or> j = 3 \<or> j = 4 \<or> j = 5 \<or> j = 6 \<or> j = 7 \<or> j = 8 \<or> j = 9 \<or> j = 10 \<or> j = 11"
      by (rule below_12)
    then show "0.01 < balance (tradeHistory ?res ! j)"
      by (elim disjE) (simp_all add: run_losses_14)
  qed
  from simulateTrades_ruin_absorbing [OF run k low first]
  show ?thesis by (simp add: run_losses_14)
qed



text \<open>
  Claim C2, as the code has it. For every trade \<open>k\<close> before which no trade left a balance
  \<open>\<le> 0.01\<close>, the recorded outcome is a win iff the \<open>k\<close>-th draw is below \<open>winRate / 100\<close>, and
  the recorded balance is the balance of the previous record times
  \<open>1 + (riskPerTrade / 100) * rrRatio\<close> for a win and \<open>1 - riskPerTrade / 100\<close> for a loss. With
  balance 100, risk 10, ratio 4 and one trade, a draw of 0 gives \<open>[{0, 100}, {1, 140, win}]\<close>
  when the win rate is positive, and a draw of 0.999 gives \<open>[{0, 100}, {1, 90, loss}]\<close> when the
  win rate is below 99.9.
\<close>

theorem simulateTrades_trade_outcome:
  assumes "simulateTrades startBalance riskPerTrade rrRatio numTrades winRate rng = (res, rng')"
    and "1 \<le> k" and "k < length (tradeHistory res)"
    and "\<forall>j. 1 \<le> j \<and> j < k \<longrightarrow> 0.01 < balance (tradeHistory res ! j)"
  shows "isWin (tradeHistory res ! k) = Some (rng !! (k - 1) < winRate / 100)
    \<and> balance (tradeHistory res ! k) =
           balance (tradeHistory res ! (k - 1)) *
             (if rng !! (k - 1) < winRate / 100 then 1 + riskPerTrade / 100 * rrRatio
              else 1 - riskPerTrade / 100)
    \<and> (0 < w \<longrightarrow> tradeHistory (fst (simulateTrades 100 10 4 1 w (0 ## s))) =
          [\<lparr>trade = 0, balance = 100, isWin = None\<rparr>, \<lparr>trade = 1, balance = 140, isWin = Some True\<rparr>])
    \<and> (w < 99.9 \<longrightarrow> tradeHistory (fst (simulateTrades 100 10 4 1 w (0.999 ## s))) =
          [\<lparr>trade = 0, balance = 100, isWin = None\<rparr>, \<lparr>trade = 1, balance = 90, isWin = Some False\<rparr>])"
proof -
  have "tradeHistory res ! k =
    trade_item (riskPerTrade / 100) rrRatio (winRate / 100) (int k)
      (balance (tradeHistory res ! (k - 1))) (rng !! (k - 1))"
    using assms by (rule history_step)
  then have a: "isWin (tradeHistory res ! k) = Some (rng !! (k - 1) < winRate / 100)
    \<and> balance (tradeHistory res ! k) =
           balance (tradeHistory res ! (k - 1)) *
             (if rng !! (k - 1) < winRate / 100 then 1 + riskPerTrade / 100 * rrRatio
              else 1 - riskPerTrade / 100)"
    by (simp add: trade_item_sel next_balance_def)
  have b: "0 < w \<longrightarrow> tradeHistory (fst (simulateTrades 100 10 4 1 w (0 ## s))) =
          [\<lparr>trade = 0, balance = 100, isWin = None\<rparr>, \<lparr>trade = 1, balance = 140, isWin = Some True\<rparr>]"
    by (simp add: simulateTrades_def simulateTrades_loop.simps pad_loop.simps Math_random_def Let_def)
  have c: "w < 99.9 \<longrightarrow> tradeHistory (fst (simulateTrades 100 10 4 1 w (0.999 ## s))) =
          [\<lparr>trade = 0, balance = 100, isWin = None\<rparr>, \<lparr>trade = 1, balance = 90, isWin = Some False\<rparr>]"
    by (simp add: simulateTrades_def simulateTrades_loop.simps pad_loop.simps Math_random_def Let_def)
  from a b c show ?thesis by blast
qed

text \<open>
  Claim C2 as stated speaks of every trade up to \<open>numTrades\<close>. After the \<^verbatim>\<open>break\<close> of line
  116 the records are pushed as losses without a draw: when the generator returns 0.6 twelve
  times and 0 from then on, trade 13 is recorded as a loss although the thirteenth value,
  0, is below \<open>50 / 100\<close>, and its balance, 0, is not the balance of record 12 times the
  loss multiplier.
\<close>

theorem simulateTrades_trade_outcome_counterexample:
  "isWin (tradeHistory (fst (simulateTrades 10 45 (1 / 2) 14 50 (replicate 12 (3 / 5) @- sconst 0))) ! 13)
     = Some False
   \<and> (replicate 12 (3 / 5) @- sconst 0) !! 12 < (50 :: real) / 100
   \<and> balance (tradeHistory (fst (simulateTrades 10 45 (1 / 2) 14 50 (replicate 12 (3 / 5) @- sconst 0))) ! 13)
     \<noteq> balance (tradeHistory (fst (simulateTrades 10 45 (1 / 2) 14 50 (replicate 12 (3 / 5) @- sconst 0))) ! 12)
         * (1 - 45 / 100)"
  by (simp add: run_eval)

text \<open>
  The statement about the trades before ruin at the second trade of the run of 14 losing
  trades, and the two scenarios at a win rate of 50.
\<close>

theorem simulateTrades_trade_outcome_witness:
  "isWin (tradeHistory (fst (simulateTrades 10 45 (1 / 2) 14 50 (sconst (3 / 5)))) ! 2) = Some False
   \<and> balance (tradeHistory (fst (simulateTrades 10 45 (1 / 2) 14 50 (sconst (3 / 5)))) ! 2)
       = balance (tradeHistory (fst (simulateTrades 10 45 (1 / 2) 14 50 (sconst (3 / 5)))) ! 1) * (1 - 45 / 100)
   \<and> tradeHistory (fst (simulateTrades 100 10 4 1 50 (0 ## sconst 0))) =
          [\<lparr>trade = 0, balance = 100, isWin = None\<rparr>, \<lparr>trade = 1, balance = 140, isWin = Some True\<rparr>]
   \<and> tradeHistory (fst (simulateTrades 100 10 4 1 50 (0.999 ## sconst 0))) =
          [\<lparr>trade = 0, balance = 100, isWin = None\<rparr>, \<lparr>trade = 1, balance = 90, isWin = Some False\<rparr>]"
proof -
  let ?res = "fst (simulateTrades 10 45 (1 / 2) 14 50 (sconst (3 / 5)))"
  have run: "simulateTrades 10 45 (1 / 2) 14 50 (sconst (3 / 5)) = (?res, sconst (3 / 5))"
    by (simp add: run_losses_14)
  have k: "(1 :: nat) \<le> 2" "2 < length (tradeHistory ?res)"
    by (simp_all add: run_losses_14)
  have first: "\<forall>j. 1 \<le> j \<and> j < 2 \<longrightarrow> 0.01 < balance (tradeHistory ?res ! j)"
  proof (intro allI impI)
    fix j :: nat assume "1 \<le> j \<and> j < 2"
    then have "j = 1" by arith
    then show "0.01 < balance (tradeHistory ?res ! j)" by (simp add: run_losses_14)
  qed
  from simulateTrades_trade_outcome [OF run k first, of 50 "sconst 0"]
  show ?thesis by (simp add: run_losses_14)
qed

text \<open>
  Claim C3, as the code has it. \<^verbatim>\<open>simulateTrades\<close> has five parameters and none of them is a
  source of randomness: line 97 calls the global \<^verbatim>\<open>Math.random\<close>. What the call returns is
  determined by the five arguments and the first \<open>numTrades\<close> values that \<^verbatim>\<open>Math.random\<close>
  returns during the call: two runs that agree on these return the same final balance and
  the same history.
\<close>

theorem simulateTrades_deterministic:
  assumes "stake (nat numTrades) rng1 = stake (nat numTrades) rng2"
  shows "fst (simulateTrades startBalance riskPerTrade rrRatio numTrades winRate rng1)
       = fst (simulateTrades startBalance riskPerTrade rrRatio numTrades winRate rng2)"
  using run_deterministic [of numTrades 1 rng1 "riskPerTrade / 100" rrRatio "winRate / 100" startBalance] assms
  by (simp add: simulateTrades_run)

text \<open>
  Claim C3 as stated makes the random source an argument of the simulator. The arguments
  of \<^verbatim>\<open>simulateTrades\<close> do not determine its result: two calls with the same five arguments
  return different histories when the runtime's generator is in different states.
\<close>

theorem simulateTrades_global_random_counterexample:
  "fst (simulateTrades 100 10 4 1 50 (sconst 0)) \<noteq> fst (simulateTrades 100 10 4 1 50 (sconst (999 / 1000)))"
  by (simp add: run_eval)

text \<open>
  The statement about agreeing draws at two generators that agree on the first draw only.
\<close>

theorem simulateTrades_deterministic_witness:
  "stake (nat 1) (0 ## sconst (1 / 4 :: real)) = stake (nat 1) (0 ## sconst (3 / 4))
   \<and> fst (simulateTrades 100 10 4 1 50 (0 ## sconst (1 / 4)))
     = fst (simulateTrades 100 10 4 1 50 (0 ## sconst (3 / 4)))"
proof -
  have h: "stake (nat 1) (0 ## sconst (1 / 4)) = stake (nat 1) (0 ## sconst (3 / 4 :: real))"
    by simp
  from simulateTrades_deterministic [OF h, of 100 10 4 50] h show ?thesis by blast
qed



section \<open>The outcome table, claims\<close>

text \<open>
  Claim C5. In the table that \<^verbatim>\<open>calculateWinRateOutcomes\<close> returns, the flag of each row is
  \<open>winRate \<ge> calculateBreakEvenRate rrRatio\<close>; a row after a flagged row is flagged; the
  flags are some number of \<open>False\<close> followed by \<open>True\<close> only (at most one change, from false
  to true); and for a ratio of 4 the row of 10 is not flagged and the rows of 20 to 90
  are.
\<close>

theorem outcomes_isBreakEven:
  "(\<forall>row \<in> set (calculateWinRateOutcomes startBalance riskPerTrade rrRatio numTrades).
      wro_isBreakEven row = (real_of_int (wro_winRate row) \<ge> calculateBreakEvenRate rrRatio))
   \<and> (\<forall>i j. i \<le> j \<and> j < length (calculateWinRateOutcomes startBalance riskPerTrade rrRatio numTrades)
         \<and> wro_isBreakEven (calculateWinRateOutcomes startBalance riskPerTrade rrRatio numTrades ! i)
       \<longrightarrow> wro_isBreakEven (calculateWinRateOutcomes startBalance riskPerTrade rrRatio numTrades ! j))
   \<and> map (\<lambda>row. (wro_winRate row, wro_isBreakEven row))
        (calculateWinRateOutcomes startBalance riskPerTrade 4 numTrades)
       = [(10, False), (20, True), (30, True), (40, True), (50, True), (60, True), (70, True),
          (80, True), (90, True)]
   \<and> (\<exists>m \<le> 9. map wro_isBreakEven (calculateWinRateOutcomes startBalance riskPerTrade rrRatio numTrades)
         = replicate m False @ replicate (9 - m) True)"
proof -
  have a: "\<forall>row \<in> set (calculateWinRateOutcomes startBalance riskPerTrade rrRatio numTrades).
      wro_isBreakEven row = (real_of_int (wro_winRate row) \<ge> calculateBreakEvenRate rrRatio)"
    by (simp add: outcomes_flag)
  have b: "\<forall>i j. i \<le> j \<and> j < length (calculateWinRateOutcomes startBalance riskPerTrade rrRatio numTrades)
         \<and> wro_isBreakEven (calculateWinRateOutcomes startBalance riskPerTrade rrRatio numTrades ! i)
       \<longrightarrow> wro_isBreakEven (calculateWinRateOutcomes startBalance riskPerTrade rrRatio numTrades ! j)"
    using outcomes_mono by blast
  have c: "map (\<lambda>row. (wro_winRate row, wro_isBreakEven row))
        (calculateWinRateOutcomes startBalance riskPerTrade 4 numTrades)
       = [(10, False), (20, True), (30, True), (40, True), (50, True), (60, True), (70, True),
          (80, True), (90, True)]"
    by (simp add: outcomes_table outcome_row_sel calculateBreakEvenRate_def)
  have "\<forall>i j. i \<le> j
        \<and> j < length (map wro_isBreakEven (calculateWinRateOutcomes startBalance riskPerTrade rrRatio numTrades))
        \<and> map wro_isBreakEven (calculateWinRateOutcomes startBalance riskPerTrade rrRatio numTrades) ! i
      \<longrightarrow> map wro_isBreakEven (calculateWinRateOutcomes startBalance riskPerTrade rrRatio numTrades) ! j"
  proof (intro allI impI)
    fix i j
    assume A: "i \<le> j
        \<and> j < length (map wro_isBreakEven (calculateWinRateOutcomes startBalance riskPerTrade rrRatio numTrades))
        \<and> map wro_isBreakEven (calculateWinRateOutcomes startBalance riskPerTrade rrRatio numTrades) ! i"
    then have le: "i \<le> j"
      and lj: "j < length (calculateWinRateOutcomes startBalance riskPerTrade rrRatio numTrades)"
      and li: "i < length (calculateWinRateOutcomes startBalance riskPerTrade rrRatio numTrades)"
      by simp_all
    from A li have "wro_isBreakEven (calculateWinRateOutcomes startBalance riskPerTrade rrRatio numTrades ! i)"
      by simp
    with le lj have "wro_isBreakEven (calculateWinRateOutcomes startBalance riskPerTrade rrRatio numTrades ! j)"
      by (rule outcomes_mono)
    with lj show "map wro_isBreakEven (calculateWinRateOutcomes startBalance riskPerTrade rrRatio numTrades) ! j"
      by simp
  qed
  then have "\<exists>m \<le> length (map wro_isBreakEven
        (calculateWinRateOutcomes startBalance riskPerTrade rrRatio numTrades)).
      map wro_isBreakEven (calculateWinRateOutcomes startBalance riskPerTrade rrRatio numTrades)
        = replicate m False @ replicate (length (map wro_isBreakEven
            (calculateWinRateOutcomes startBalance riskPerTrade rrRatio numTrades)) - m) True"
    by (rule monotone_flags_threshold)
  moreover have "length (map wro_isBreakEven
      (calculateWinRateOutcomes startBalance riskPerTrade rrRatio numTrades)) = 9"
    by (simp add: outcomes_table)
  ultimately have d: "\<exists>m \<le> 9. map wro_isBreakEven (calculateWinRateOutcomes startBalance riskPerTrade rrRatio numTrades)
         = replicate m False @ replicate (9 - m) True"
    by (simp only:)
  from a b c d show ?thesis by blast
qed

text \<open>
  The statement at the default form values: the rows of 20 and 60 are flagged and the row
  of 10 is not.
\<close>

theorem outcomes_isBreakEven_witness:
  "wro_isBreakEven (calculateWinRateOutcomes 100 10 4 100 ! 1)
   \<and> wro_isBreakEven (calculateWinRateOutcomes 100 10 4 100 ! 5)
   \<and> \<not> wro_isBreakEven (calculateWinRateOutcomes 100 10 4 100 ! 0)
   \<and> calculateBreakEvenRate 4 = 20"
  using outcomes_isBreakEven [of 100 10 4 100]
  by (simp add: outcomes_table outcome_row_sel calculateBreakEvenRate_def)



end
